theory Spec2Isabelle
  imports Complex_Main "HOL-Library.AList" "HOL-Library.FSet" "HOL-Library.Word"
begin

section \<open>deduplicator.py: time-based advertisement deduplication\<close>

text \<open>
  The class \<open>Deduplicator\<close> holds \<open>interval_seconds\<close> and the dictionary
  \<open>_last_seen\<close> from device address to the clock reading of the last published sighting.
  A Python dictionary keeps its keys in insertion order and holds each key once, so it is
  an association list whose keys are distinct: \<open>AList.update\<close> overwrites a key in place
  and appends a new one, as \<open>d[k] = v\<close> does. Every method reads \<open>time.time()\<close> once;
  the reading is the parameter \<open>now\<close>, taken as an exact real number.
\<close>

datatype py_error = KeyError

record deduplicator =
  interval_seconds :: int
  last_seen :: "(string \<times> real) list"

definition Deduplicator :: "int \<Rightarrow> deduplicator" where
  "Deduplicator interval = \<lparr>interval_seconds = interval, last_seen = []\<rparr>"

definition dict_ok :: "(string \<times> real) list \<Rightarrow> bool" where
  "dict_ok m = distinct (map fst m)"

definition should_publish :: "real \<Rightarrow> string \<Rightarrow> deduplicator \<Rightarrow> bool \<times> deduplicator" where
  "should_publish now device_address d =
     (case map_of (last_seen d) device_address of
        None \<Rightarrow> (True, d\<lparr>last_seen := AList.update device_address now (last_seen d)\<rparr>)
      | Some seen \<Rightarrow>
          (let elapsed = now - seen in
           if elapsed \<ge> real_of_int (interval_seconds d)
           then (True, d\<lparr>last_seen := AList.update device_address now (last_seen d)\<rparr>)
           else (False, d)))"

definition get_stats :: "deduplicator \<Rightarrow> nat" where
  "get_stats d = length (last_seen d)"

text \<open>\<open>del self._last_seen[key]\<close> raises \<open>KeyError\<close> when the key is absent.\<close>

definition dict_del :: "string \<Rightarrow> (string \<times> real) list \<Rightarrow> py_error + (string \<times> real) list" where
  "dict_del key m = (if key \<in> fst ` set m then Inr (AList.delete key m) else Inl KeyError)"

fun del_keys :: "string list \<Rightarrow> (string \<times> real) list \<Rightarrow> py_error + (string \<times> real) list" where
  "del_keys [] m = Inr m"
| "del_keys (key # keys) m =
     (case dict_del key m of Inl e \<Rightarrow> Inl e | Inr m' \<Rightarrow> del_keys keys m')"

definition old_keys_of :: "real \<Rightarrow> int \<Rightarrow> (string \<times> real) list \<Rightarrow> string list" where
  "old_keys_of now max_age_seconds m =
     map fst (filter (\<lambda>(addr, seen). now - seen > real_of_int max_age_seconds) m)"

definition clear_old_entries :: "real \<Rightarrow> int \<Rightarrow> deduplicator \<Rightarrow> py_error + (nat \<times> deduplicator)" where
  "clear_old_entries now max_age_seconds d =
     (let old_keys = old_keys_of now max_age_seconds (last_seen d) in
      case del_keys old_keys (last_seen d) of
        Inl e \<Rightarrow> Inl e
      | Inr m' \<Rightarrow> Inr (length old_keys, d\<lparr>last_seen := m'\<rparr>))"

text \<open>
  A run of \<open>should_publish\<close> calls: each call is a clock reading and an address; the log
  keeps, for every call, its reading, its address and the value it returned.
\<close>

fun run_should_publish ::
  "deduplicator \<Rightarrow> (real \<times> string) list \<Rightarrow> (real \<times> string \<times> bool) list \<times> deduplicator" where
  "run_should_publish d [] = ([], d)"
| "run_should_publish d ((now, a) # calls) =
     (let (r, d') = should_publish now a d;
          (tr, d'') = run_should_publish d' calls
      in ((now, a, r) # tr, d''))"

text \<open>The reading of the last call in a log that was for address \<open>a\<close> and returned true.\<close>

fun last_published :: "string \<Rightarrow> (real \<times> string \<times> bool) list \<Rightarrow> real option" where
  "last_published a [] = None"
| "last_published a ((t, b, r) # tr) =
     (case last_published a tr of
        Some t' \<Rightarrow> Some t'
      | None \<Rightarrow> (if b = a \<and> r then Some t else None))"

section \<open>ble_scanner.py: the Advertisement record and the detection handler\<close>

record advertisement =
  version :: string
  timestamp :: string
  scanner_id :: string
  device_address :: string
  device_address_type :: string
  device_name :: "string option"
  rssi :: int
  manufacturer_data :: "(string \<times> string) list"
  service_data :: "(string \<times> string) list"
  service_uuids :: "string list"
  raw_data :: string

text \<open>What bleak hands to the detection callback: a \<open>BLEDevice\<close> and an \<open>AdvertisementData\<close>.\<close>

record ble_device =
  address :: string

record advertisement_data =
  local_name :: "string option"
  adv_rssi :: int
  adv_manufacturer_data :: "(nat \<times> 8 word list) list"
  adv_service_data :: "(string \<times> 8 word list) list"
  adv_service_uuids :: "string list"

text \<open>\<open>base64.b64encode(bytes(data)).decode()\<close>: the standard alphabet, padded with \<open>=\<close>.\<close>

definition b64chars :: string where
  "b64chars = ''ABCDEFGHIJKLMNOPQRSTUVWXYZabcdefghijklmnopqrstuvwxyz0123456789+/''"

definition b64char :: "nat \<Rightarrow> char" where
  "b64char n = b64chars ! (n mod 64)"

fun b64encode :: "8 word list \<Rightarrow> string" where
  "b64encode [] = []"
| "b64encode [a] =
     (let x = unat a in
      [b64char (x div 4), b64char ((x mod 4) * 16), CHR ''='', CHR ''=''])"
| "b64encode [a, b] =
     (let x = unat a; y = unat b in
      [b64char (x div 4), b64char ((x mod 4) * 16 + y div 16), b64char ((y mod 16) * 4),
       CHR ''=''])"
| "b64encode (a # b # c # rest) =
     (let x = unat a; y = unat b; z = unat c in
      [b64char (x div 4), b64char ((x mod 4) * 16 + y div 16),
       b64char ((y mod 16) * 4 + z div 64), b64char (z mod 64)] @ b64encode rest)"

text \<open>\<open>f"0x{company_id:04x}"\<close>: lower-case hexadecimal, zero-padded to at least four digits.\<close>

definition hexchar :: "nat \<Rightarrow> char" where
  "hexchar n = ''0123456789abcdef'' ! (n mod 16)"

fun hex_digits :: "nat \<Rightarrow> string" where
  "hex_digits n = (if n < 16 then [hexchar n] else hex_digits (n div 16) @ [hexchar (n mod 16)])"

declare hex_digits.simps [simp del]

definition format_04x :: "nat \<Rightarrow> string" where
  "format_04x n = (let ds = hex_digits n in replicate (4 - length ds) CHR ''0'' @ ds)"

text \<open>\<open>str.upper()\<close> on an address, which is ASCII: the letters a to z move to A to Z.\<close>

definition upper_char :: "char \<Rightarrow> char" where
  "upper_char c = (let n = (of_char c :: nat) in if 97 \<le> n \<and> n \<le> 122 then char_of (n - 32) else c)"

definition upper :: "string \<Rightarrow> string" where
  "upper s = map upper_char s"

text \<open>
  \<open>BLEScanner._handle_advertisement\<close>, up to the construction of the \<open>Advertisement\<close>.
  \<open>now_iso\<close> is the value of \<open>datetime.now(timezone.utc).isoformat()\<close>.
\<close>

definition build_advertisement ::
  "string \<Rightarrow> string \<Rightarrow> ble_device \<Rightarrow> advertisement_data \<Rightarrow> advertisement" where
  "build_advertisement self_scanner_id now_iso device data =
     (let manufacturer =
            fold (\<lambda>(company_id, bs) m. AList.update (''0x'' @ format_04x company_id) (b64encode bs) m)
                 (adv_manufacturer_data data) [];
          service =
            fold (\<lambda>(uuid, bs) m. AList.update uuid (b64encode bs) m) (adv_service_data data) [];
          uuids = (if adv_service_uuids data \<noteq> [] then adv_service_uuids data else []);
          raw = b64encode []
      in \<lparr>version = ''1.0'',
          timestamp = now_iso,
          scanner_id = self_scanner_id,
          device_address = upper (address device),
          device_address_type = ''public'',
          device_name = local_name data,
          rssi = adv_rssi data,
          manufacturer_data = manufacturer,
          service_data = service,
          service_uuids = uuids,
          raw_data = raw\<rparr>)"

text \<open>
  The handler then calls \<open>self.callback(advertisement)\<close> when a callback is set. The callback
  changes the state of whoever registered it, so it is a function on that state.
\<close>

definition BLEScanner_handle_advertisement ::
  "string \<Rightarrow> (advertisement \<Rightarrow> 's \<Rightarrow> 's) option \<Rightarrow> string \<Rightarrow> ble_device \<Rightarrow> advertisement_data \<Rightarrow> 's \<Rightarrow> 's" where
  "BLEScanner_handle_advertisement self_scanner_id callback now_iso device data st =
     (let adv = build_advertisement self_scanner_id now_iso device data in
      case callback of None \<Rightarrow> st | Some f \<Rightarrow> f adv st)"

section \<open>ble_scanner.py: the scan loop\<close>

text \<open>
  \<open>_scan_loop\<close> is a coroutine: it runs until it awaits, and resumes when the awaited
  operation returns or raises. The model is a machine whose control state says which
  \<open>await\<close> the loop is suspended in; one step resumes it with the result of that
  operation and runs it to its next \<open>await\<close> or to its end. The trace records what the loop
  does on the way: each call of \<open>self._scanner.start()\<close>, each error report, each back-off
  wait, the call of \<open>self._scanner.stop()\<close>.
\<close>

datatype py_exception = CancelledError | TimeoutError | Exception string

fun str_of :: "py_exception \<Rightarrow> string" where
  "str_of (Exception msg) = msg"
| "str_of _ = []"

datatype await_result = Returned | Raised py_exception

datatype control =
    AwaitStart
  | AwaitWait
  | AwaitStop
  | AwaitSleep nat
  | Busy
  | Exited

datatype action =
    StartAttempt nat
  | AdapterNotReady nat
  | PermissionDenied
  | ScannerError string
  | GivingUp
  | Retrying nat
  | StopScanner

record scan_loop =
  running :: bool
  has_scanner :: bool
  retry_count :: nat
  pc :: control
  trace :: "action list"

definition max_retries :: nat where
  "max_retries = 10"

fun contains :: "string \<Rightarrow> string \<Rightarrow> bool" where
  "contains needle [] = (needle = [])"
| "contains needle (c # cs) = (take (length needle) (c # cs) = needle \<or> contains needle cs)"

definition classify :: "string \<Rightarrow> nat \<Rightarrow> action" where
  "classify error_msg n =
     (if contains ''Resource Not Ready'' error_msg then AdapterNotReady n
      else if contains ''Permission denied'' error_msg then PermissionDenied
      else ScannerError error_msg)"

text \<open>
  The head of \<open>while self._running\<close>. With no scanner object the body does nothing and
  awaits nothing, so the loop spins without ever yielding: control state \<open>Busy\<close>.
\<close>

definition loop_head :: "scan_loop \<Rightarrow> scan_loop" where
  "loop_head s =
     (if running s then
        (if has_scanner s
         then s\<lparr>pc := AwaitStart, trace := trace s @ [StartAttempt (retry_count s + 1)]\<rparr>
         else s\<lparr>pc := Busy\<rparr>)
      else s\<lparr>pc := Exited\<rparr>)"

text \<open>The head of the inner \<open>while self._running\<close>, and \<open>await self._scanner.stop()\<close> after it.\<close>

definition monitor :: "scan_loop \<Rightarrow> scan_loop" where
  "monitor s =
     (if running s then s\<lparr>pc := AwaitWait\<rparr>
      else s\<lparr>pc := AwaitStop, trace := trace s @ [StopScanner]\<rparr>)"

text \<open>The \<open>except Exception as e\<close> branch.\<close>

definition on_exception :: "string \<Rightarrow> scan_loop \<Rightarrow> scan_loop" where
  "on_exception error_msg s =
     (let n = retry_count s + 1;
          s1 = s\<lparr>retry_count := n, trace := trace s @ [classify error_msg n]\<rparr>
      in if n \<ge> max_retries then
           s1\<lparr>running := False, pc := Exited, trace := trace s1 @ [GivingUp]\<rparr>
         else if running s1 then
           (let wait_time = min (5 * n) 30 in
            s1\<lparr>pc := AwaitSleep wait_time, trace := trace s1 @ [Retrying wait_time]\<rparr>)
         else loop_head s1)"

fun resume :: "await_result \<Rightarrow> scan_loop \<Rightarrow> scan_loop" where
  "resume r s =
     (case pc s of
        AwaitStart \<Rightarrow>
          (case r of
             Returned \<Rightarrow> monitor (s\<lparr>retry_count := 0\<rparr>)
           | Raised CancelledError \<Rightarrow> s\<lparr>pc := Exited\<rparr>
           | Raised e \<Rightarrow> on_exception (str_of e) s)
      | AwaitWait \<Rightarrow>
          (case r of
             Returned \<Rightarrow> s\<lparr>pc := AwaitStop, trace := trace s @ [StopScanner]\<rparr>
           | Raised TimeoutError \<Rightarrow> monitor s
           | Raised CancelledError \<Rightarrow> s\<lparr>pc := Exited\<rparr>
           | Raised e \<Rightarrow> on_exception (str_of e) s)
      | AwaitStop \<Rightarrow>
          (case r of
             Returned \<Rightarrow> loop_head s
           | Raised CancelledError \<Rightarrow> s\<lparr>pc := Exited\<rparr>
           | Raised e \<Rightarrow> on_exception (str_of e) s)
      | AwaitSleep w \<Rightarrow>
          (case r of
             Returned \<Rightarrow> loop_head s
           | Raised e \<Rightarrow> s\<lparr>pc := Exited\<rparr>)
      | Busy \<Rightarrow> s
      | Exited \<Rightarrow> s)"

fun run_events :: "scan_loop \<Rightarrow> await_result list \<Rightarrow> scan_loop" where
  "run_events s [] = s"
| "run_events s (r # rs) = run_events (resume r s) rs"

text \<open>
  \<open>BLEScanner.start\<close> on a scanner that is not running: the \<open>BleakScanner\<close> object is
  created (its constructor may raise, and \<open>start\<close> raises that again), \<open>_running\<close> is set
  and the loop begins with \<open>retry_count = 0\<close>. \<open>BLEScanner.stop\<close> clears \<open>_running\<close> and
  cancels the task, which resumes the loop with \<open>CancelledError\<close>.
\<close>

definition new_scan_loop :: scan_loop where
  "new_scan_loop = \<lparr>running = False, has_scanner = False, retry_count = 0, pc = Exited, trace = []\<rparr>"

definition start :: "py_exception option \<Rightarrow> scan_loop \<Rightarrow> py_exception + scan_loop" where
  "start constructor_raises s =
     (if running s then Inr s
      else case constructor_raises of
             Some e \<Rightarrow> Inl e
           | None \<Rightarrow> Inr (loop_head (s\<lparr>has_scanner := True, running := True, retry_count := 0\<rparr>)))"

definition stop :: "scan_loop \<Rightarrow> scan_loop" where
  "stop s = (if \<not> running s then s else resume (Raised CancelledError) (s\<lparr>running := False\<rparr>))"

text \<open>
  A run of consecutive start failures: each start raises, and each back-off sleep that
  follows returns.
\<close>

definition failures :: "py_exception list \<Rightarrow> await_result list" where
  "failures excs = concat (map (\<lambda>e. [Raised e, Returned]) excs)"

definition start_attempts :: "scan_loop \<Rightarrow> nat" where
  "start_attempts s = length (filter (\<lambda>a. case a of StartAttempt n \<Rightarrow> True | _ \<Rightarrow> False) (trace s))"

text \<open>The back-off waits of a trace, in order.\<close>

fun backoffs :: "action list \<Rightarrow> nat list" where
  "backoffs [] = []"
| "backoffs (Retrying w # as) = w # backoffs as"
| "backoffs (_ # as) = backoffs as"

section \<open>mqtt_publisher.py: the publisher\<close>

text \<open>
  The fields of \<open>MQTTPublisher\<close> that its methods read and write. The paho client is
  outside the program: what it answers to a \<open>publish\<close> call is a parameter of the model,
  either an exception raised in the \<open>try\<close> body (by \<open>json.dumps\<close> or by the client) or
  the return code \<open>result.rc\<close>. Two fields are observations, not fields of the class:
  \<open>advertisement_calls\<close> lists the arguments of the calls of \<open>publish_advertisement\<close>,
  and \<open>client_publishes\<close> lists, for each call of \<open>self._client.publish\<close> that returned,
  its topic, its retain flag and the return code the client gave.
\<close>

datatype send_result = SendRaises | SendRc int

definition MQTT_ERR_SUCCESS :: int where
  "MQTT_ERR_SUCCESS = 0"

record publisher =
  topic_prefix :: string
  pub_scanner_id :: string
  qos :: int
  connected :: bool
  connect_time :: "real option"
  messages_sent :: int
  messages_failed :: int
  advertisement_calls :: "advertisement list"
  client_publishes :: "(string \<times> bool \<times> int) list"

definition MQTTPublisher :: "string \<Rightarrow> string \<Rightarrow> int \<Rightarrow> publisher" where
  "MQTTPublisher prefix sid q =
     \<lparr>topic_prefix = prefix, pub_scanner_id = sid, qos = q,
      connected = False, connect_time = None, messages_sent = 0, messages_failed = 0,
      advertisement_calls = [], client_publishes = []\<rparr>"

text \<open>\<open>connect\<close> re-raises what the client raises and changes no field; \<open>disconnect\<close>.\<close>

definition connect :: "bool \<Rightarrow> publisher \<Rightarrow> unit + publisher" where
  "connect client_raises p = (if client_raises then Inl () else Inr p)"

definition disconnect :: "publisher \<Rightarrow> publisher" where
  "disconnect p = p\<lparr>connected := False\<rparr>"

definition publish_advertisement :: "send_result \<Rightarrow> advertisement \<Rightarrow> publisher \<Rightarrow> bool \<times> publisher" where
  "publish_advertisement res adv p0 =
     (let p = p0\<lparr>advertisement_calls := advertisement_calls p0 @ [adv]\<rparr> in
      if \<not> connected p then (False, p\<lparr>messages_failed := messages_failed p + 1\<rparr>)
      else
        (let topic = topic_prefix p @ ''/raw/'' @ pub_scanner_id p in
         case res of
           SendRaises \<Rightarrow> (False, p\<lparr>messages_failed := messages_failed p + 1\<rparr>)
         | SendRc rc \<Rightarrow>
             (let p1 = p\<lparr>client_publishes := client_publishes p @ [(topic, False, rc)]\<rparr> in
              if rc = MQTT_ERR_SUCCESS then (True, p1)
              else (False, p1\<lparr>messages_failed := messages_failed p1 + 1\<rparr>))))"

definition publish_status :: "send_result \<Rightarrow> publisher \<Rightarrow> bool \<times> publisher" where
  "publish_status res p =
     (if \<not> connected p then (False, p)
      else
        (let topic = topic_prefix p @ ''/scanner/'' @ pub_scanner_id p @ ''/status'' in
         case res of
           SendRaises \<Rightarrow> (False, p)
         | SendRc rc \<Rightarrow>
             (let p1 = p\<lparr>client_publishes := client_publishes p @ [(topic, True, rc)]\<rparr> in
              if rc = MQTT_ERR_SUCCESS then (True, p1) else (False, p1))))"

text \<open>\<open>int(x)\<close> on a float truncates towards zero.\<close>

definition py_int :: "real \<Rightarrow> int" where
  "py_int x = (if x \<ge> 0 then \<lfloor>x\<rfloor> else \<lceil>x\<rceil>)"

record statistics =
  stat_connected :: bool
  stat_uptime_seconds :: int
  stat_messages_sent :: int
  stat_messages_failed :: int

definition get_statistics :: "real \<Rightarrow> publisher \<Rightarrow> statistics" where
  "get_statistics now p =
     (let uptime = (case connect_time p of
                      None \<Rightarrow> 0
                    | Some t \<Rightarrow> if t \<noteq> 0 then now - t else 0)
      in \<lparr>stat_connected = connected p, stat_uptime_seconds = py_int uptime,
          stat_messages_sent = messages_sent p, stat_messages_failed = messages_failed p\<rparr>)"

text \<open>
  The callbacks the client invokes: \<open>_on_connect\<close>, \<open>_on_disconnect\<close>, \<open>_on_publish\<close>. The
  first two end by calling the notification the application registered, if any; those
  notifications belong to the application and write no field of the publisher.
\<close>

definition on_connect :: "int \<Rightarrow> real \<Rightarrow> publisher \<Rightarrow> publisher" where
  "on_connect rc now p =
     (if rc = 0 then p\<lparr>connected := True, connect_time := Some now\<rparr>
      else p\<lparr>connected := False\<rparr>)"

definition on_disconnect :: "int \<Rightarrow> publisher \<Rightarrow> publisher" where
  "on_disconnect rc p = p\<lparr>connected := False\<rparr>"

definition on_publish :: "publisher \<Rightarrow> publisher" where
  "on_publish p = p\<lparr>messages_sent := messages_sent p + 1\<rparr>"




section \<open>app.py: the scanner application\<close>

text \<open>
  The parts of \<open>Config\<close> that \<open>ScannerApp\<close> reads in the detection path and in the status
  report, and the fields of \<open>ScannerApp\<close>. \<open>_devices_seen\<close> is a Python set.
\<close>

record config =
  deduplication_enabled :: bool
  deduplication_interval_seconds :: int
  blocklist_enabled :: bool
  blocklist_devices :: "string list"

record scanner_app =
  app_config :: config
  mqtt_publisher :: "publisher option"
  devices_seen :: "string fset"
  messages_published :: int

definition ScannerApp :: "config \<Rightarrow> scanner_app" where
  "ScannerApp cfg =
     \<lparr>app_config = cfg, mqtt_publisher = None, devices_seen = {||}, messages_published = 0\<rparr>"

definition ScannerApp_handle_advertisement ::
  "send_result \<Rightarrow> advertisement \<Rightarrow> scanner_app \<Rightarrow> scanner_app" where
  "ScannerApp_handle_advertisement res adv app0 =
     (let app = app0\<lparr>devices_seen := finsert (device_address adv) (devices_seen app0)\<rparr> in
      if blocklist_enabled (app_config app) \<and>
         device_address adv \<in> set (blocklist_devices (app_config app))
      then app
      else
        (case mqtt_publisher app of
           None \<Rightarrow> app
         | Some p \<Rightarrow>
             (let (success, p') = publish_advertisement res adv p;
                  app1 = app\<lparr>mqtt_publisher := Some p'\<rparr>
              in if success then app1\<lparr>messages_published := messages_published app1 + 1\<rparr>
                 else app1)))"

text \<open>The metrics of the status report built by \<open>_publish_status\<close>, and the call itself.\<close>

record metrics =
  metric_messages_sent :: int
  metric_messages_dropped :: int
  metric_devices_seen :: nat

definition status_metrics :: "real \<Rightarrow> scanner_app \<Rightarrow> publisher \<Rightarrow> metrics" where
  "status_metrics now app p =
     \<lparr>metric_messages_sent = messages_published app,
      metric_messages_dropped = stat_messages_failed (get_statistics now p),
      metric_devices_seen = fcard (devices_seen app)\<rparr>"

definition ScannerApp_publish_status :: "send_result \<Rightarrow> scanner_app \<Rightarrow> scanner_app" where
  "ScannerApp_publish_status res app =
     (case mqtt_publisher app of
        None \<Rightarrow> app
      | Some p \<Rightarrow> app\<lparr>mqtt_publisher := Some (snd (publish_status res p))\<rparr>)"

text \<open>
  What can happen to a running application: a detection reaches the handler, the heartbeat
  or the connect notification publishes a status, the client invokes one of the publisher's
  callbacks, statistics are read, \<open>shutdown\<close> disconnects the publisher.
\<close>

datatype operation =
    HandleAdvertisement send_result advertisement
  | PublishStatus send_result
  | OnConnect int real
  | OnDisconnect int
  | OnPublish
  | GetStatistics real
  | Disconnect

definition with_publisher :: "(publisher \<Rightarrow> publisher) \<Rightarrow> scanner_app \<Rightarrow> scanner_app" where
  "with_publisher f app = app\<lparr>mqtt_publisher := map_option f (mqtt_publisher app)\<rparr>"

fun apply_operation :: "operation \<Rightarrow> scanner_app \<Rightarrow> scanner_app" where
  "apply_operation (HandleAdvertisement res adv) app = ScannerApp_handle_advertisement res adv app"
| "apply_operation (PublishStatus res) app = ScannerApp_publish_status res app"
| "apply_operation (OnConnect rc now) app = with_publisher (on_connect rc now) app"
| "apply_operation (OnDisconnect rc) app = with_publisher (on_disconnect rc) app"
| "apply_operation OnPublish app = with_publisher on_publish app"
| "apply_operation (GetStatistics now) app = app"
| "apply_operation Disconnect app = with_publisher disconnect app"

fun run_operations :: "scanner_app \<Rightarrow> operation list \<Rightarrow> scanner_app" where
  "run_operations app [] = app"
| "run_operations app (x # xs) = run_operations (apply_operation x app) xs"

text \<open>
  The whole detection path: the scanner's handler builds the \<open>Advertisement\<close> and hands it
  to its callback, which \<open>ScannerApp.run\<close> sets to \<open>ScannerApp._handle_advertisement\<close>.
\<close>

definition detection :: "string \<Rightarrow> send_result \<Rightarrow> string \<Rightarrow> ble_device \<Rightarrow> advertisement_data \<Rightarrow> scanner_app \<Rightarrow> scanner_app" where
  "detection sid res now_iso device data app =
     BLEScanner_handle_advertisement sid (Some (ScannerApp_handle_advertisement res)) now_iso device data app"

text \<open>The three counters of an application state are at most those of another.\<close>

definition counters_le :: "scanner_app \<Rightarrow> scanner_app \<Rightarrow> bool" where
  "counters_le a b \<longleftrightarrow>
     messages_published a \<le> messages_published b \<and>
     fcard (devices_seen a) \<le> fcard (devices_seen b) \<and>
     (\<forall>p. mqtt_publisher a = Some p \<longrightarrow>
        (\<exists>p'. mqtt_publisher b = Some p' \<and>
              messages_sent p \<le> messages_sent p' \<and> messages_failed p \<le> messages_failed p'))"

section \<open>Concrete scenarios\<close>

text \<open>
  A connected publisher, a device with address \<open>AA:BB:CC:DD:EE:FF\<close>, and three
  configurations: deduplication enabled with an interval of 30 seconds and no blocklist;
  the address in a blocklist that is not enabled; the address in an enabled blocklist.
\<close>

definition connected_publisher :: publisher where
  "connected_publisher = on_connect 0 0 (MQTTPublisher ''bt-mqtt'' ''scanner-1'' 1)"

definition device_AA :: ble_device where
  "device_AA = \<lparr>address = ''aa:bb:cc:dd:ee:ff''\<rparr>"

definition no_data :: advertisement_data where
  "no_data = \<lparr>local_name = None, adv_rssi = - 60, adv_manufacturer_data = [],
              adv_service_data = [], adv_service_uuids = []\<rparr>"

definition adv_AA :: "string \<Rightarrow> advertisement" where
  "adv_AA now_iso = build_advertisement ''scanner-1'' now_iso device_AA no_data"

definition dedup_config :: config where
  "dedup_config = \<lparr>deduplication_enabled = True, deduplication_interval_seconds = 30,
                    blocklist_enabled = False, blocklist_devices = []\<rparr>"

definition listed_config :: "bool \<Rightarrow> config" where
  "listed_config enabled = \<lparr>deduplication_enabled = False, deduplication_interval_seconds = 30,
                    blocklist_enabled = enabled, blocklist_devices = [''AA:BB:CC:DD:EE:FF'']\<rparr>"

definition running_app :: "config \<Rightarrow> scanner_app" where
  "running_app cfg = (ScannerApp cfg)\<lparr>mqtt_publisher := Some connected_publisher\<rparr>"

section \<open>Properties of the deduplicator\<close>

lemma dict_ok_update: "dict_ok m \<Longrightarrow> dict_ok (AList.update k v m)"
  by (simp add: dict_ok_def distinct_update)

lemma should_publish_dict_ok:
  "dict_ok (last_seen d) \<Longrightarrow> dict_ok (last_seen (snd (should_publish now a d)))"
  by (simp add: should_publish_def dict_ok_update Let_def split: option.splits)

lemma should_publish_interval:
  "interval_seconds (snd (should_publish now a d)) = interval_seconds d"
  by (simp add: should_publish_def Let_def split: option.splits)

lemma should_publish_other:
  "b \<noteq> a \<Longrightarrow> map_of (last_seen (snd (should_publish now a d))) b = map_of (last_seen d) b"
  by (simp add: should_publish_def Let_def update_conv' split: option.splits)

lemma should_publish_same:
  "map_of (last_seen (snd (should_publish now a d))) a =
     (if fst (should_publish now a d) then Some now else map_of (last_seen d) a)"
  by (simp add: should_publish_def Let_def update_conv' split: option.splits)

lemma should_publish_first:
  "map_of (last_seen d) a = None \<Longrightarrow> fst (should_publish now a d)"
  by (simp add: should_publish_def)

lemma run_lookup:
  "run_should_publish d calls = (tr, d') \<Longrightarrow>
   map_of (last_seen d') a =
     (case last_published a tr of Some t \<Rightarrow> Some t | None \<Rightarrow> map_of (last_seen d) a)"
proof (induction calls arbitrary: d tr d')
  case Nil
  then show ?case by simp
next
  case (Cons c calls)
  obtain now b where c: "c = (now, b)" by (cases c)
  obtain r d1 where sp: "should_publish now b d = (r, d1)" by (cases "should_publish now b d")
  obtain tr2 d2 where run: "run_should_publish d1 calls = (tr2, d2)"
    by (cases "run_should_publish d1 calls")
  from Cons.prems c sp run have tr: "tr = (now, b, r) # tr2" and d': "d' = d2" by simp_all
  have ih: "map_of (last_seen d2) a =
     (case last_published a tr2 of Some t \<Rightarrow> Some t | None \<Rightarrow> map_of (last_seen d1) a)"
    using Cons.IH [OF run] .
  have d1: "d1 = snd (should_publish now b d)" and r: "r = fst (should_publish now b d)"
    using sp by simp_all
  show ?case
  proof (cases "last_published a tr2")
    case (Some t)
    then show ?thesis using ih tr d' by simp
  next
    case None
    show ?thesis
    proof (cases "b = a")
      case True
      then show ?thesis using None ih tr d' d1 r should_publish_same [of now a d]
        by (simp split: option.splits)
    next
      case False
      then show ?thesis using None ih tr d' d1 should_publish_other [of a b now d]
        by simp
    qed
  qed
qed

lemma del_keys_present:
  "distinct ks \<Longrightarrow> set ks \<subseteq> fst ` set m \<Longrightarrow>
   del_keys ks m = Inr (filter (\<lambda>p. fst p \<notin> set ks) m)"
proof (induction ks arbitrary: m)
  case Nil
  then show ?case by simp
next
  case (Cons k ks)
  have del: "AList.delete k m = filter (\<lambda>p. fst p \<noteq> k) m"
    by (simp add: AList.delete_eq case_prod_unfold eq_commute)
  have sub: "set ks \<subseteq> fst ` set (AList.delete k m)"
  proof
    fix x assume x: "x \<in> set ks"
    then have "x \<noteq> k" using Cons.prems by auto
    moreover from x Cons.prems obtain b where "(x, b) \<in> set m" by force
    ultimately show "x \<in> fst ` set (AList.delete k m)" by (force simp: del)
  qed
  have "del_keys (k # ks) m = del_keys ks (AList.delete k m)"
    using Cons.prems by (simp add: dict_del_def)
  also have "\<dots> = Inr (filter (\<lambda>p. fst p \<notin> set ks) (AList.delete k m))"
    using Cons.IH [OF _ sub] Cons.prems by simp
  also have "filter (\<lambda>p. fst p \<notin> set ks) (AList.delete k m) = filter (\<lambda>p. fst p \<notin> set (k # ks)) m"
    by (auto simp: del intro: filter_cong)
  finally show ?case .
qed

lemma old_keys_member:
  "dict_ok m \<Longrightarrow> (a, t) \<in> set m \<Longrightarrow>
   a \<in> set (old_keys_of now age m) \<longleftrightarrow> now - t > real_of_int age"
  by (force simp: old_keys_of_def dict_ok_def image_iff dest: eq_key_imp_eq_value)

lemma old_keys_distinct: "dict_ok m \<Longrightarrow> distinct (old_keys_of now age m)"
  by (simp add: old_keys_of_def dict_ok_def distinct_map_filter)

lemma old_keys_subset: "set (old_keys_of now age m) \<subseteq> fst ` set m"
  by (auto simp: old_keys_of_def)

lemma del_old_keys:
  assumes "dict_ok m"
  shows "del_keys (old_keys_of now age m) m =
         Inr (filter (\<lambda>(a, t). \<not> now - t > real_of_int age) m)"
proof -
  have "filter (\<lambda>p. fst p \<notin> set (old_keys_of now age m)) m =
        filter (\<lambda>(a, t). \<not> now - t > real_of_int age) m"
    using old_keys_member [OF assms] by (intro filter_cong) auto
  then show ?thesis
    using del_keys_present [OF old_keys_distinct [OF assms] old_keys_subset] by simp
qed

lemma old_keys_count:
  assumes "dict_ok m"
  shows "length (old_keys_of now age m) =
         card {a. \<exists>t. map_of m a = Some t \<and> now - t > real_of_int age}"
proof -
  have "set (old_keys_of now age m) = {a. \<exists>t. map_of m a = Some t \<and> now - t > real_of_int age}"
    using assms by (force simp: old_keys_of_def dict_ok_def image_iff)
  then show ?thesis
    using distinct_card [OF old_keys_distinct [OF assms], of now age] by simp
qed

lemma map_of_kept:
  assumes "dict_ok m"
  shows "map_of (filter (\<lambda>(a, t). \<not> now - t > real_of_int age) m) a =
         (case map_of m a of None \<Rightarrow> None
          | Some t \<Rightarrow> if now - t > real_of_int age then None else Some t)"
  using assms
proof (induction m)
  case Nil
  then show ?case by simp
next
  case (Cons p m)
  then show ?case
    by (cases p) (auto simp: dict_ok_def split: option.splits dest: map_of_SomeD
        simp: map_of_eq_None_iff image_iff)
qed

lemma run_called:
  "run_should_publish d calls = (tr, d') \<Longrightarrow> map_of (last_seen d) a = None \<Longrightarrow>
   a \<in> snd ` set calls \<Longrightarrow> last_published a tr \<noteq> None"
proof (induction calls arbitrary: d tr d')
  case Nil
  then show ?case by simp
next
  case (Cons c calls)
  obtain now b where c: "c = (now, b)" by (cases c)
  obtain r d1 where sp: "should_publish now b d = (r, d1)" by (cases "should_publish now b d")
  obtain tr2 d2 where run: "run_should_publish d1 calls = (tr2, d2)"
    by (cases "run_should_publish d1 calls")
  from Cons.prems(1) c sp run have tr: "tr = (now, b, r) # tr2" by simp
  show ?case
  proof (cases "b = a")
    case True
    then have "r" using should_publish_first [OF Cons.prems(2), of now] sp by simp
    then show ?thesis using tr True by (simp split: option.splits)
  next
    case False
    then have "map_of (last_seen d1) a = None"
      using should_publish_other [of a b now d] sp Cons.prems(2) by simp
    moreover have "a \<in> snd ` set calls" using Cons.prems(3) c False by auto
    ultimately have "last_published a tr2 \<noteq> None" using Cons.IH [OF run] by blast
    then show ?thesis using tr by auto
  qed
qed

lemma run_not_called:
  "run_should_publish d calls = (tr, d') \<Longrightarrow> a \<notin> snd ` set calls \<Longrightarrow>
   last_published a tr = None"
proof (induction calls arbitrary: d tr d')
  case Nil
  then show ?case by simp
next
  case (Cons c calls)
  obtain now b where c: "c = (now, b)" by (cases c)
  obtain r d1 where sp: "should_publish now b d = (r, d1)" by (cases "should_publish now b d")
  obtain tr2 d2 where run: "run_should_publish d1 calls = (tr2, d2)"
    by (cases "run_should_publish d1 calls")
  from Cons.prems(1) c sp run have tr: "tr = (now, b, r) # tr2" by simp
  have "last_published a tr2 = None" using Cons.IH [OF run] Cons.prems(2) by simp
  moreover have "b \<noteq> a" using Cons.prems(2) c by auto
  ultimately show ?case using tr by simp
qed

lemma run_interval:
  "run_should_publish d calls = (tr, d') \<Longrightarrow> interval_seconds d' = interval_seconds d"
proof (induction calls arbitrary: d tr d')
  case Nil
  then show ?case by simp
next
  case (Cons c calls)
  obtain now b where c: "c = (now, b)" by (cases c)
  obtain r d1 where sp: "should_publish now b d = (r, d1)" by (cases "should_publish now b d")
  obtain tr2 d2 where run: "run_should_publish d1 calls = (tr2, d2)"
    by (cases "run_should_publish d1 calls")
  from Cons.prems(1) c sp run have "d' = d2" by simp
  then show ?case using Cons.IH [OF run] should_publish_interval [of now b d] sp by simp
qed

text \<open>
  Claim C4. Start from a fresh \<open>Deduplicator interval\<close> and make any sequence of
  \<open>should_publish\<close> calls. For the next call, with address \<open>a\<close> at reading \<open>now\<close>:
  if \<open>a\<close> was never passed before, the call returns true and stores \<open>now\<close> for \<open>a\<close>;
  otherwise the stored timestamp of \<open>a\<close> is the reading \<open>t\<close> of the last call for \<open>a\<close>
  that returned true, and the call returns false and leaves the whole state unchanged when
  \<open>now - t < interval\<close>, and returns true and stores \<open>now\<close> when \<open>now - t \<ge> interval\<close>.
\<close>

theorem should_publish_recency:
  assumes run: "run_should_publish (Deduplicator interval) calls = (tr, d)"
  shows "(a \<notin> snd ` set calls \<longrightarrow>
            fst (should_publish now a d) \<and>
            map_of (last_seen (snd (should_publish now a d))) a = Some now) \<and>
         (a \<in> snd ` set calls \<longrightarrow>
            (\<exists>t. last_published a tr = Some t \<and> map_of (last_seen d) a = Some t \<and>
               (now - t < real_of_int interval \<longrightarrow> should_publish now a d = (False, d)) \<and>
               (now - t \<ge> real_of_int interval \<longrightarrow>
                  fst (should_publish now a d) \<and>
                  map_of (last_seen (snd (should_publish now a d))) a = Some now)))"
proof -
  have fresh: "map_of (last_seen (Deduplicator interval)) a = None"
    by (simp add: Deduplicator_def)
  have iv: "interval_seconds d = interval"
    using run_interval [OF run] by (simp add: Deduplicator_def)
  have stored: "map_of (last_seen d) a =
      (case last_published a tr of Some t \<Rightarrow> Some t | None \<Rightarrow> None)"
    using run_lookup [OF run, of a] fresh by (simp split: option.splits)
  have first: "a \<notin> snd ` set calls \<longrightarrow>
      fst (should_publish now a d) \<and>
      map_of (last_seen (snd (should_publish now a d))) a = Some now"
  proof
    assume "a \<notin> snd ` set calls"
    then have "map_of (last_seen d) a = None"
      using run_not_called [OF run] stored by simp
    then show "fst (should_publish now a d) \<and>
      map_of (last_seen (snd (should_publish now a d))) a = Some now"
      by (simp add: should_publish_def update_conv')
  qed
  have later: "a \<in> snd ` set calls \<longrightarrow>
      (\<exists>t. last_published a tr = Some t \<and> map_of (last_seen d) a = Some t \<and>
         (now - t < real_of_int interval \<longrightarrow> should_publish now a d = (False, d)) \<and>
         (now - t \<ge> real_of_int interval \<longrightarrow>
            fst (should_publish now a d) \<and>
            map_of (last_seen (snd (should_publish now a d))) a = Some now))"
  proof
    assume "a \<in> snd ` set calls"
    then obtain t where t: "last_published a tr = Some t"
      using run_called [OF run fresh] by blast
    then have m: "map_of (last_seen d) a = Some t" using stored by simp
    have "now - t < real_of_int interval \<longrightarrow> should_publish now a d = (False, d)"
      using m iv by (simp add: should_publish_def Let_def)
    moreover have "now - t \<ge> real_of_int interval \<longrightarrow>
        fst (should_publish now a d) \<and>
        map_of (last_seen (snd (should_publish now a d))) a = Some now"
      using m iv by (simp add: should_publish_def Let_def update_conv')
    ultimately show "\<exists>t. last_published a tr = Some t \<and> map_of (last_seen d) a = Some t \<and>
         (now - t < real_of_int interval \<longrightarrow> should_publish now a d = (False, d)) \<and>
         (now - t \<ge> real_of_int interval \<longrightarrow>
            fst (should_publish now a d) \<and>
            map_of (last_seen (snd (should_publish now a d))) a = Some now)"
      using t m by blast
  qed
  from first later show ?thesis by blast
qed

theorem should_publish_recency_witness:
  "run_should_publish (Deduplicator 30) [(0, ''AA''), (10, ''AA'')] =
     ([(0, ''AA'', True), (10, ''AA'', False)], \<lparr>interval_seconds = 30, last_seen = [(''AA'', 0)]\<rparr>) \<and>
   ''BB'' \<notin> snd ` set [(0::real, ''AA''), (10, ''AA'')] \<and>
   fst (should_publish 12 ''BB'' \<lparr>interval_seconds = 30, last_seen = [(''AA'', 0)]\<rparr>) \<and>
   ''AA'' \<in> snd ` set [(0::real, ''AA''), (10, ''AA'')] \<and>
   last_published ''AA'' [(0, ''AA'', True), (10, ''AA'', False)] = Some 0 \<and>
   (20::real) - 0 < real_of_int 30 \<and>
   should_publish 20 ''AA'' \<lparr>interval_seconds = 30, last_seen = [(''AA'', 0)]\<rparr> =
     (False, \<lparr>interval_seconds = 30, last_seen = [(''AA'', 0)]\<rparr>) \<and>
   (35::real) - 0 \<ge> real_of_int 30 \<and>
   fst (should_publish 35 ''AA'' \<lparr>interval_seconds = 30, last_seen = [(''AA'', 0)]\<rparr>) \<and>
   map_of (last_seen (snd (should_publish 35 ''AA''
     \<lparr>interval_seconds = 30, last_seen = [(''AA'', 0)]\<rparr>))) ''AA'' = Some 35"
proof -
  have run: "run_should_publish (Deduplicator 30) [(0, ''AA''), (10, ''AA'')] =
     ([(0, ''AA'', True), (10, ''AA'', False)], \<lparr>interval_seconds = 30, last_seen = [(''AA'', 0)]\<rparr>)"
    by (simp add: Deduplicator_def should_publish_def)
  have out: "''BB'' \<notin> snd ` set [(0::real, ''AA''), (10, ''AA'')]" by simp
  have inn: "''AA'' \<in> snd ` set [(0::real, ''AA''), (10, ''AA'')]" by simp
  show ?thesis
    using run out inn
      should_publish_recency [OF run, of "''BB''" 12]
      should_publish_recency [OF run, of "''AA''" 20]
      should_publish_recency [OF run, of "''AA''" 35]
    by simp
qed

text \<open>
  Claim C6. On any recency table (a dictionary, so with distinct keys) and for any
  \<open>max_age\<close>, \<open>clear_old_entries\<close> returns normally; the number it returns is the number
  of addresses whose age \<open>now - t\<close> exceeds \<open>max_age\<close>; the table that remains is the old one
  without exactly those entries, every other entry keeping its place and its timestamp; and
  a removed address is a first sighting for the next \<open>should_publish\<close>, which returns
  true and records its reading.
\<close>

theorem clear_old_entries_exact:
  assumes ok: "dict_ok (last_seen d)"
  shows "\<exists>d'. clear_old_entries now max_age d =
            Inr (card {a. \<exists>t. map_of (last_seen d) a = Some t \<and> now - t > real_of_int max_age}, d') \<and>
          last_seen d' = filter (\<lambda>(a, t). \<not> now - t > real_of_int max_age) (last_seen d) \<and>
          interval_seconds d' = interval_seconds d \<and>
          dict_ok (last_seen d') \<and>
          (\<forall>a. map_of (last_seen d') a =
             (case map_of (last_seen d) a of None \<Rightarrow> None
              | Some t \<Rightarrow> if now - t > real_of_int max_age then None else Some t)) \<and>
          (\<forall>a t now'. map_of (last_seen d) a = Some t \<longrightarrow> now - t > real_of_int max_age \<longrightarrow>
             fst (should_publish now' a d') \<and>
             map_of (last_seen (snd (should_publish now' a d'))) a = Some now')"
proof -
  let ?keep = "filter (\<lambda>(a, t). \<not> now - t > real_of_int max_age) (last_seen d)"
  let ?d' = "d\<lparr>last_seen := ?keep\<rparr>"
  have res: "clear_old_entries now max_age d =
      Inr (card {a. \<exists>t. map_of (last_seen d) a = Some t \<and> now - t > real_of_int max_age}, ?d')"
    by (simp add: clear_old_entries_def Let_def del_old_keys [OF ok] old_keys_count [OF ok])
  have okd: "dict_ok (last_seen ?d')"
    using ok by (simp add: dict_ok_def distinct_map_filter)
  have look: "\<forall>a. map_of (last_seen ?d') a =
             (case map_of (last_seen d) a of None \<Rightarrow> None
              | Some t \<Rightarrow> if now - t > real_of_int max_age then None else Some t)"
    using map_of_kept [OF ok] by simp
  have again: "\<forall>a t now'. map_of (last_seen d) a = Some t \<longrightarrow> now - t > real_of_int max_age \<longrightarrow>
             fst (should_publish now' a ?d') \<and>
             map_of (last_seen (snd (should_publish now' a ?d'))) a = Some now'"
  proof (intro allI impI)
    fix a t now'
    assume "map_of (last_seen d) a = Some t" and "now - t > real_of_int max_age"
    then have "map_of (last_seen ?d') a = None" using look by simp
    then show "fst (should_publish now' a ?d') \<and>
             map_of (last_seen (snd (should_publish now' a ?d'))) a = Some now'"
      by (simp add: should_publish_def update_conv')
  qed
  show ?thesis
    using res okd look again by (intro exI [of _ ?d']) simp
qed

theorem clear_old_entries_exact_witness:
  "dict_ok [(''AA'', 0), (''BB'', 90::real)] \<and>
   clear_old_entries 100 60 \<lparr>interval_seconds = 30, last_seen = [(''AA'', 0), (''BB'', 90)]\<rparr> =
     Inr (1, \<lparr>interval_seconds = 30, last_seen = [(''BB'', 90)]\<rparr>) \<and>
   card {a. \<exists>t. map_of [(''AA'', 0), (''BB'', 90::real)] a = Some t \<and> 100 - t > real_of_int 60} = 1 \<and>
   fst (should_publish 101 ''AA'' \<lparr>interval_seconds = 30, last_seen = [(''BB'', 90)]\<rparr>)"
proof -
  define d where "d = \<lparr>interval_seconds = 30, last_seen = [(''AA'', 0), (''BB'', 90::real)]\<rparr>"
  have ls: "last_seen d = [(''AA'', 0), (''BB'', 90)]" by (simp add: d_def)
  have ok: "dict_ok (last_seen d)" by (simp add: ls dict_ok_def)
  have run: "clear_old_entries 100 60 d =
     Inr (1, \<lparr>interval_seconds = 30, last_seen = [(''BB'', 90)]\<rparr>)"
    by (simp add: d_def clear_old_entries_def old_keys_of_def dict_del_def Let_def)
  have old: "map_of (last_seen d) ''AA'' = Some 0" by (simp add: ls)
  have age: "(100::real) - 0 > real_of_int 60" by simp
  from clear_old_entries_exact [OF ok, of 100 60] obtain d' where
    res: "clear_old_entries 100 60 d =
      Inr (card {a. \<exists>t. map_of (last_seen d) a = Some t \<and> 100 - t > real_of_int 60}, d')" and
    again: "\<forall>a t now'. map_of (last_seen d) a = Some t \<longrightarrow> 100 - t > real_of_int 60 \<longrightarrow>
             fst (should_publish now' a d') \<and>
             map_of (last_seen (snd (should_publish now' a d'))) a = Some now'"
    by blast
  from res run have
    c: "card {a. \<exists>t. map_of (last_seen d) a = Some t \<and> 100 - t > real_of_int 60} = 1" and
    d': "d' = \<lparr>interval_seconds = 30, last_seen = [(''BB'', 90)]\<rparr>"
    by simp_all
  from again old age have "fst (should_publish 101 ''AA'' d')" by blast
  with c d' run ok show ?thesis unfolding ls d_def by simp
qed

section \<open>Properties of the scan loop\<close>

lemma one_failure:
  assumes "pc s = AwaitStart" "running s" "has_scanner s" "retry_count s + 1 < 10"
    and "e \<noteq> CancelledError"
  shows "run_events s [Raised e, Returned] =
         s\<lparr>retry_count := retry_count s + 1, pc := AwaitStart,
           trace := trace s @ [classify (str_of e) (retry_count s + 1),
                               Retrying (min (5 * (retry_count s + 1)) 30),
                               StartAttempt (retry_count s + 2)]\<rparr>"
  using assms
  by (cases e) (simp_all add: on_exception_def loop_head_def max_retries_def Let_def)

lemma start_attempts_append:
  "start_attempts (s\<lparr>trace := trace s @ xs\<rparr>) =
   start_attempts s + length (filter (\<lambda>a. case a of StartAttempt n \<Rightarrow> True | _ \<Rightarrow> False) xs)"
  by (simp add: start_attempts_def)

lemma backoffs_append: "backoffs (xs @ ys) = backoffs xs @ backoffs ys"
  by (induction xs rule: backoffs.induct) simp_all

lemma classify_backoffs: "backoffs [classify m n] = []"
  by (simp add: classify_def)

lemma classify_not_start:
  "(case classify m n of StartAttempt k \<Rightarrow> True | _ \<Rightarrow> False) = False"
  by (simp add: classify_def)

lemma run_events_append: "run_events s (xs @ ys) = run_events (run_events s xs) ys"
  by (induction xs arbitrary: s) simp_all

lemma failures_Cons: "failures (e # es) = [Raised e, Returned] @ failures es"
  by (simp add: failures_def)

lemma many_failures:
  assumes "pc s = AwaitStart" "running s" "has_scanner s"
    and "retry_count s + length excs < 10" "CancelledError \<notin> set excs"
  shows "pc (run_events s (failures excs)) = AwaitStart \<and>
         running (run_events s (failures excs)) \<and>
         has_scanner (run_events s (failures excs)) \<and>
         retry_count (run_events s (failures excs)) = retry_count s + length excs \<and>
         start_attempts (run_events s (failures excs)) = start_attempts s + length excs \<and>
         backoffs (trace (run_events s (failures excs))) =
           backoffs (trace s) @
           map (\<lambda>k. min (5 * k) 30) [retry_count s + 1 ..< retry_count s + length excs + 1]"
  using assms
proof (induction excs arbitrary: s)
  case Nil
  then show ?case by (simp add: failures_def)
next
  case (Cons e excs)
  let ?s1 = "run_events s [Raised e, Returned]"
  have e: "e \<noteq> CancelledError" using Cons.prems(5) by auto
  have k: "retry_count s + 1 < 10" using Cons.prems(4) by simp
  have s1: "?s1 = s\<lparr>retry_count := retry_count s + 1, pc := AwaitStart,
           trace := trace s @ [classify (str_of e) (retry_count s + 1),
                               Retrying (min (5 * (retry_count s + 1)) 30),
                               StartAttempt (retry_count s + 2)]\<rparr>"
    using one_failure [OF Cons.prems(1-3) k e] .
  have p1: "pc ?s1 = AwaitStart" "running ?s1" "has_scanner ?s1"
    and r1: "retry_count ?s1 = retry_count s + 1"
    using Cons.prems(2,3) unfolding s1 by simp_all
  have a1: "start_attempts ?s1 = start_attempts s + 1"
    unfolding s1 by (simp add: start_attempts_def classify_not_start)
  have b1: "backoffs (trace ?s1) = backoffs (trace s) @ [min (5 * (retry_count s + 1)) 30]"
    unfolding s1 by (simp add: backoffs_append classify_def)
  have len: "retry_count ?s1 + length excs < 10" using Cons.prems(4) r1 by simp
  have rest: "CancelledError \<notin> set excs" using Cons.prems(5) by simp
  have split: "run_events s (failures (e # excs)) = run_events ?s1 (failures excs)"
    unfolding failures_Cons run_events_append ..
  have up: "[retry_count s + 1 ..< retry_count s + length (e # excs) + 1] =
            (retry_count s + 1) # [retry_count s + 1 + 1 ..< retry_count s + 1 + length excs + 1]"
    using upt_conv_Cons [of "retry_count s + 1" "retry_count s + length (e # excs) + 1"] by simp
  show ?case
    unfolding split using Cons.IH [OF p1 len rest] unfolding r1 a1 b1 up by simp
qed

lemma exited_terminal: "pc s = Exited \<Longrightarrow> run_events s rs = s"
  by (induction rs) simp_all

lemma last_failure:
  assumes "pc s = AwaitStart" "retry_count s = 9" "e \<noteq> CancelledError"
  shows "resume (Raised e) s =
         s\<lparr>retry_count := 10, running := False, pc := Exited,
           trace := trace s @ [classify (str_of e) 10, GivingUp]\<rparr>"
  using assms
  by (cases e) (simp_all add: on_exception_def max_retries_def Let_def)

lemma next_failure:
  assumes "pc s = AwaitStart" "running s" "retry_count s + 1 < 10" "e \<noteq> CancelledError"
  shows "resume (Raised e) s =
         s\<lparr>retry_count := retry_count s + 1, pc := AwaitSleep (min (5 * (retry_count s + 1)) 30),
           trace := trace s @ [classify (str_of e) (retry_count s + 1),
                               Retrying (min (5 * (retry_count s + 1)) 30)]\<rparr>"
  using assms
  by (cases e) (simp_all add: on_exception_def max_retries_def Let_def)

text \<open>
  Claim C2. Let the loop be suspended in a start attempt with no failure counted
  (\<open>retry_count = 0\<close>, as when the loop begins and after every successful start). If that
  attempt and the nine that follow all fail, the loop gives up at the tenth failure: it
  clears \<open>_running\<close>, reports that it gives up and ends, having made ten start attempts
  (the pending one and nine more); whatever happens afterwards, its state and its trace
  stay as they are, so no further start is attempted.
\<close>

theorem scan_loop_gives_up:
  assumes "pc s = AwaitStart" "running s" "has_scanner s" "retry_count s = 0"
    and "length excs = 9" "CancelledError \<notin> set excs" "e \<noteq> CancelledError"
  shows "let s' = run_events s (failures excs @ [Raised e]) in
           pc s' = Exited \<and> \<not> running s' \<and> retry_count s' = 10 \<and>
           start_attempts s' = start_attempts s + 9 \<and>
           last (trace s') = GivingUp \<and>
           (\<forall>rs. run_events s' rs = s')"
proof -
  let ?s1 = "run_events s (failures excs)"
  have len: "retry_count s + length excs < 10" using assms(4,5) by simp
  have m: "pc ?s1 = AwaitStart" "retry_count ?s1 = 9" "start_attempts ?s1 = start_attempts s + 9"
    using many_failures [OF assms(1-3) len assms(6)] assms(4,5) by simp_all
  let ?s' = "resume (Raised e) ?s1"
  have s': "?s' = ?s1\<lparr>retry_count := 10, running := False, pc := Exited,
           trace := trace ?s1 @ [classify (str_of e) 10, GivingUp]\<rparr>"
    using last_failure [OF m(1,2) assms(7)] .
  have run: "run_events s (failures excs @ [Raised e]) = ?s'"
    by (simp add: run_events_append)
  have ex: "pc ?s' = Exited" unfolding s' by simp
  have "\<not> running ?s'" "retry_count ?s' = 10" "last (trace ?s') = GivingUp"
    unfolding s' by simp_all
  moreover have "start_attempts ?s' = start_attempts s + 9"
    unfolding s' using m(3) by (simp add: start_attempts_def classify_not_start)
  moreover have "\<forall>rs. run_events ?s' rs = ?s'"
    using exited_terminal [OF ex] by blast
  ultimately show ?thesis unfolding run Let_def using ex by blast
qed

text \<open>
  Claim C5. Let the loop be suspended in a start attempt with no failure counted. After
  \<open>k - 1\<close> consecutive failures (\<open>1 \<le> k < 10\<close>) the counter is \<open>k - 1\<close>; the \<open>k\<close>-th
  failure makes the loop sleep \<open>min (5 * k) 30\<close> seconds, and only when that sleep returns
  does it make the next start attempt, number \<open>k + 1\<close>. So the waits of the run are
  \<open>min (5 * i) 30\<close> for \<open>i = 1, \<dots>, k\<close>. A start that succeeds sets the counter to 0.
\<close>

theorem scan_loop_backoff:
  assumes "pc s = AwaitStart" "running s" "has_scanner s" "retry_count s = 0"
    and "CancelledError \<notin> set excs" "e \<noteq> CancelledError"
    and "k = length excs + 1" "k < 10"
  shows "let s1 = run_events s (failures excs);
             s2 = resume (Raised e) s1;
             s3 = resume Returned s2
         in pc s1 = AwaitStart \<and> retry_count s1 = k - 1 \<and>
            pc s2 = AwaitSleep (min (5 * k) 30) \<and> retry_count s2 = k \<and>
            trace s2 = trace s1 @ [classify (str_of e) k, Retrying (min (5 * k) 30)] \<and>
            pc s3 = AwaitStart \<and> retry_count s3 = k \<and>
            trace s3 = trace s2 @ [StartAttempt (k + 1)] \<and>
            backoffs (trace s3) = backoffs (trace s) @ map (\<lambda>i. min (5 * i) 30) [1 ..< k + 1] \<and>
            retry_count (resume Returned s3) = 0"
proof -
  let ?s1 = "run_events s (failures excs)"
  let ?s2 = "resume (Raised e) ?s1"
  let ?s3 = "resume Returned ?s2"
  have len: "retry_count s + length excs < 10" using assms(4,7,8) by simp
  have m: "pc ?s1 = AwaitStart" "running ?s1" "has_scanner ?s1" "retry_count ?s1 = k - 1"
    "backoffs (trace ?s1) = backoffs (trace s) @ map (\<lambda>i. min (5 * i) 30) [1 ..< k]"
    using many_failures [OF assms(1-3) len assms(5)] assms(4,7) by simp_all
  have k1: "retry_count ?s1 + 1 = k" using m(4) assms(7) by simp
  have lt: "retry_count ?s1 + 1 < 10" using k1 assms(8) by simp
  have s2: "?s2 = ?s1\<lparr>retry_count := k, pc := AwaitSleep (min (5 * k) 30),
           trace := trace ?s1 @ [classify (str_of e) k, Retrying (min (5 * k) 30)]\<rparr>"
    using next_failure [OF m(1,2) lt assms(6)] unfolding k1 .
  have f2: "pc ?s2 = AwaitSleep (min (5 * k) 30)" "retry_count ?s2 = k" "running ?s2"
    "has_scanner ?s2"
    "trace ?s2 = trace ?s1 @ [classify (str_of e) k, Retrying (min (5 * k) 30)]"
    unfolding s2 using m(2,3) by simp_all
  have s3: "?s3 = ?s2\<lparr>pc := AwaitStart, trace := trace ?s2 @ [StartAttempt (k + 1)]\<rparr>"
    using f2(1-4) by (simp add: loop_head_def)
  have f3: "pc ?s3 = AwaitStart" "retry_count ?s3 = k"
    "trace ?s3 = trace ?s2 @ [StartAttempt (k + 1)]"
    unfolding s3 using f2(2) by simp_all
  have up: "[1 ..< k + 1] = [1 ..< k] @ [k]" using assms(7) by simp
  have b3: "backoffs (trace ?s3) = backoffs (trace s) @ map (\<lambda>i. min (5 * i) 30) [1 ..< k + 1]"
    unfolding f3(3) f2(5) up
    by (simp add: backoffs_append m(5) classify_def)
  have reset: "retry_count (resume Returned ?s3) = 0"
    using f3(1) by (simp add: monitor_def)
  show ?thesis
    unfolding Let_def using m(1,4) f2(1,2,5) f3 b3 reset by blast
qed

theorem scan_loop_gives_up_witness:
  "(let s0 = \<lparr>running = True, has_scanner = True, retry_count = 0, pc = AwaitStart,
              trace = [StartAttempt 1]\<rparr>;
        fail = Raised (Exception ''Resource Not Ready'');
        s' = run_events s0 (failures (replicate 9 (Exception ''Resource Not Ready'')) @ [fail])
    in start None new_scan_loop = Inr s0 \<and> pc s0 = AwaitStart \<and> running s0 \<and>
       has_scanner s0 \<and> retry_count s0 = 0 \<and>
       pc s' = Exited \<and> \<not> running s' \<and> start_attempts s' = 10 \<and>
       run_events s' [Returned, fail] = s')"
proof -
  define s0 where "s0 = \<lparr>running = True, has_scanner = True, retry_count = 0, pc = AwaitStart,
              trace = [StartAttempt 1]\<rparr>"
  define excs where "excs = replicate 9 (Exception ''Resource Not Ready'')"
  define e where "e = Exception ''Resource Not Ready''"
  have st: "start None new_scan_loop = Inr s0"
    by (simp add: start_def new_scan_loop_def loop_head_def s0_def)
  have h: "pc s0 = AwaitStart" "running s0" "has_scanner s0" "retry_count s0 = 0"
    by (simp_all add: s0_def)
  have a0: "start_attempts s0 = 1" by (simp add: start_attempts_def s0_def)
  have l: "length excs = 9" "CancelledError \<notin> set excs" "e \<noteq> CancelledError"
    by (simp_all add: excs_def e_def)
  define s' where "s' = run_events s0 (failures excs @ [Raised e])"
  from scan_loop_gives_up [OF h l] have
    c: "pc s' = Exited" "\<not> running s'" "start_attempts s' = start_attempts s0 + 9"
      "\<forall>rs. run_events s' rs = s'"
    unfolding Let_def s'_def by blast+
  from c(4) have t: "run_events s' [Returned, Raised e] = s'" by blast
  from c(3) a0 have n: "start_attempts s' = 10" by simp
  from st h c(1,2) n t show ?thesis
    unfolding Let_def s'_def excs_def e_def s0_def by blast
qed

theorem scan_loop_backoff_witness:
  "(let s0 = \<lparr>running = True, has_scanner = True, retry_count = 0, pc = AwaitStart,
              trace = [StartAttempt 1]\<rparr>;
        fail = Exception ''Resource Not Ready'';
        s1 = run_events s0 (failures [fail, fail]);
        s2 = resume (Raised fail) s1;
        s3 = resume Returned s2
    in pc s0 = AwaitStart \<and> running s0 \<and> has_scanner s0 \<and> retry_count s0 = 0 \<and>
       CancelledError \<notin> set [fail, fail] \<and> fail \<noteq> CancelledError \<and>
       (3::nat) = length [fail, fail] + 1 \<and> (3::nat) < 10 \<and>
       pc s2 = AwaitSleep 15 \<and> backoffs (trace s3) = [5, 10, 15] \<and>
       retry_count s3 = 3 \<and> retry_count (resume Returned s3) = 0)"
proof -
  define s0 where "s0 = \<lparr>running = True, has_scanner = True, retry_count = 0, pc = AwaitStart,
              trace = [StartAttempt 1]\<rparr>"
  define e where "e = Exception ''Resource Not Ready''"
  have h: "pc s0 = AwaitStart" "running s0" "has_scanner s0" "retry_count s0 = 0"
    by (simp_all add: s0_def)
  have b0: "backoffs (trace s0) = []" by (simp add: s0_def)
  have l: "CancelledError \<notin> set [e, e]" "e \<noteq> CancelledError"
    "(3::nat) = length [e, e] + 1" "(3::nat) < 10"
    by (simp_all add: e_def)
  have up: "[1 ..< 3 + 1] = [1::nat, 2, 3]" by (simp add: upt_rec)
  define s1 where "s1 = run_events s0 (failures [e, e])"
  define s2 where "s2 = resume (Raised e) s1"
  define s3 where "s3 = resume Returned s2"
  from scan_loop_backoff [OF h l] have
    c: "pc s2 = AwaitSleep (min (5 * 3) 30)" "retry_count s3 = 3"
      "backoffs (trace s3) = backoffs (trace s0) @ map (\<lambda>i. min (5 * i) 30) [1 ..< 3 + 1]"
      "retry_count (resume Returned s3) = 0"
    unfolding Let_def s1_def s2_def s3_def by blast+
  from c(1) have p: "pc s2 = AwaitSleep 15" by simp
  from c(3) b0 have b: "backoffs (trace s3) = [5, 10, 15]" unfolding up by simp
  from h l p b c(2,4) show ?thesis
    unfolding Let_def s1_def s2_def s3_def e_def s0_def by blast
qed

section \<open>Properties of the publisher and of the application\<close>

lemma publish_advertisement_sent:
  "messages_sent (snd (publish_advertisement res adv p)) = messages_sent p"
  by (simp add: publish_advertisement_def Let_def split: send_result.splits)

lemma publish_advertisement_failed:
  "messages_failed p \<le> messages_failed (snd (publish_advertisement res adv p))"
  by (simp add: publish_advertisement_def Let_def split: send_result.splits)

lemma publish_status_counters:
  "messages_sent (snd (publish_status res p)) = messages_sent p \<and>
   messages_failed (snd (publish_status res p)) = messages_failed p"
  by (simp add: publish_status_def Let_def split: send_result.splits)









text \<open>
  Claim C9. Whatever the outcome of \<open>publish_status\<close> (not connected, an exception, a
  rejected send, success), \<open>messages_failed\<close> is what it was before the call.
\<close>

theorem publish_status_never_counts:
  "messages_failed (snd (publish_status res status_p)) = messages_failed status_p"
  by (simp add: publish_status_def Let_def split: send_result.splits)

text \<open>
  Claim C10. The \<open>Advertisement\<close> built by the detection handler has the empty string as
  \<open>raw_data\<close>, whatever the device and the advertisement data are.
\<close>

theorem raw_data_is_empty:
  "raw_data (build_advertisement sid now_iso device data) = []"
  by (simp add: build_advertisement_def Let_def)

lemma handle_devices:
  "fcard (devices_seen app) \<le> fcard (devices_seen (ScannerApp_handle_advertisement res adv app))"
  by (auto simp add: ScannerApp_handle_advertisement_def Let_def fcard_finsert_if
      split: option.splits prod.splits)

lemma handle_published:
  "messages_published app \<le> messages_published (ScannerApp_handle_advertisement res adv app)"
  by (simp add: ScannerApp_handle_advertisement_def Let_def split: option.splits prod.splits)

lemma handle_publisher:
  assumes "mqtt_publisher app = Some p"
  shows "\<exists>p'. mqtt_publisher (ScannerApp_handle_advertisement res adv app) = Some p' \<and>
              messages_sent p \<le> messages_sent p' \<and> messages_failed p \<le> messages_failed p'"
proof (cases "blocklist_enabled (app_config app) \<and>
         device_address adv \<in> set (blocklist_devices (app_config app))")
  case True
  then show ?thesis using assms by (simp add: ScannerApp_handle_advertisement_def Let_def)
next
  case False
  obtain ok p' where pa: "publish_advertisement res adv p = (ok, p')"
    by (cases "publish_advertisement res adv p")
  have "messages_sent p' = messages_sent p" "messages_failed p \<le> messages_failed p'"
    using publish_advertisement_sent [of res adv p] publish_advertisement_failed [of p res adv] pa
    by simp_all
  moreover have "mqtt_publisher (ScannerApp_handle_advertisement res adv app) = Some p'"
    using False assms pa by (auto simp add: ScannerApp_handle_advertisement_def Let_def)
  ultimately show ?thesis by simp
qed

lemma counters_le_refl: "counters_le a a"
  by (simp add: counters_le_def)

lemma counters_le_trans: "counters_le a b \<Longrightarrow> counters_le b c \<Longrightarrow> counters_le a c"
  unfolding counters_le_def by (fastforce intro: order_trans)

lemma with_publisher_le:
  assumes "\<And>p. messages_sent p \<le> messages_sent (f p) \<and> messages_failed p \<le> messages_failed (f p)"
  shows "counters_le app (with_publisher f app)"
  using assms by (simp add: counters_le_def with_publisher_def)

lemma apply_operation_le: "counters_le app (apply_operation x app)"
proof (cases x)
  case (HandleAdvertisement res adv)
  then show ?thesis
    using handle_devices [of app res adv] handle_published [of app res adv] handle_publisher [of app _ res adv]
    by (simp add: counters_le_def)
next
  case (PublishStatus res)
  then show ?thesis
    using publish_status_counters
    by (simp add: counters_le_def ScannerApp_publish_status_def split: option.splits)
next
  case (OnConnect rc now)
  then show ?thesis by (simp add: with_publisher_le on_connect_def)
next
  case (OnDisconnect rc)
  then show ?thesis by (simp add: with_publisher_le on_disconnect_def)
next
  case OnPublish
  then show ?thesis by (simp add: with_publisher_le on_publish_def)
next
  case (GetStatistics now)
  then show ?thesis by (simp add: counters_le_refl)
next
  case Disconnect
  then show ?thesis by (simp add: with_publisher_le disconnect_def)
qed

lemma run_operations_le: "counters_le app (run_operations app xs)"
proof (induction xs arbitrary: app)
  case Nil
  then show ?case by (simp add: counters_le_refl)
next
  case (Cons x xs)
  show ?case
    using counters_le_trans [OF apply_operation_le [of app x] Cons.IH [of "apply_operation x app"]]
    by simp
qed

lemma upper_AA: "upper ''aa:bb:cc:dd:ee:ff'' = ''AA:BB:CC:DD:EE:FF''"
  by code_simp

lemma adv_AA_eq:
  "adv_AA t = \<lparr>version = ''1.0'', timestamp = t, scanner_id = ''scanner-1'',
     device_address = ''AA:BB:CC:DD:EE:FF'', device_address_type = ''public'',
     device_name = None, rssi = - 60, manufacturer_data = [], service_data = [],
     service_uuids = [], raw_data = []\<rparr>"
  by (simp add: adv_AA_def build_advertisement_def device_AA_def no_data_def upper_AA)

lemma connected_publisher_eq:
  "connected_publisher = \<lparr>topic_prefix = ''bt-mqtt'', pub_scanner_id = ''scanner-1'', qos = 1,
      connected = True, connect_time = Some 0, messages_sent = 0, messages_failed = 0,
      advertisement_calls = [], client_publishes = []\<rparr>"
  by (simp add: connected_publisher_def on_connect_def MQTTPublisher_def)

lemma handle_forwards:
  assumes "\<not> (blocklist_enabled (app_config app) \<and>
              device_address adv \<in> set (blocklist_devices (app_config app)))"
    and "mqtt_publisher app = Some p" and "connected p"
  shows "ScannerApp_handle_advertisement (SendRc MQTT_ERR_SUCCESS) adv app =
         app\<lparr>devices_seen := finsert (device_address adv) (devices_seen app),
             mqtt_publisher := Some (p\<lparr>advertisement_calls := advertisement_calls p @ [adv],
                client_publishes := client_publishes p @
                  [(topic_prefix p @ ''/raw/'' @ pub_scanner_id p, False, MQTT_ERR_SUCCESS)]\<rparr>),
             messages_published := messages_published app + 1\<rparr>"
  using assms
  by (auto simp add: ScannerApp_handle_advertisement_def publish_advertisement_def Let_def)

text \<open>
  Claim C1, evaluated on the code. Deduplication is enabled with an interval of 30 seconds
  and the publisher is connected and accepts every send. Two detections of the device
  \<open>AA:BB:CC:DD:EE:FF\<close>, ten seconds apart, go through the detection path: both are handed
  to \<open>publish_advertisement\<close> and both are counted as published, because
  \<open>ScannerApp._handle_advertisement\<close> never consults a \<open>Deduplicator\<close>.
\<close>

theorem pipeline_ignores_deduplication:
  "deduplication_enabled (app_config (running_app dedup_config)) \<and>
   deduplication_interval_seconds (app_config (running_app dedup_config)) = 30 \<and>
   map_option advertisement_calls
     (mqtt_publisher
        (detection ''scanner-1'' (SendRc MQTT_ERR_SUCCESS) ''2024-01-01T00:00:10+00:00'' device_AA no_data
          (detection ''scanner-1'' (SendRc MQTT_ERR_SUCCESS) ''2024-01-01T00:00:00+00:00'' device_AA no_data
             (running_app dedup_config)))) =
     Some [adv_AA ''2024-01-01T00:00:00+00:00'', adv_AA ''2024-01-01T00:00:10+00:00''] \<and>
   messages_published
        (detection ''scanner-1'' (SendRc MQTT_ERR_SUCCESS) ''2024-01-01T00:00:10+00:00'' device_AA no_data
          (detection ''scanner-1'' (SendRc MQTT_ERR_SUCCESS) ''2024-01-01T00:00:00+00:00'' device_AA no_data
             (running_app dedup_config))) = 2 \<and>
   device_address (adv_AA ''2024-01-01T00:00:00+00:00'') = ''AA:BB:CC:DD:EE:FF'' \<and>
   device_address (adv_AA ''2024-01-01T00:00:10+00:00'') = ''AA:BB:CC:DD:EE:FF''"
proof -
  let ?t0 = "''2024-01-01T00:00:00+00:00''" and ?t1 = "''2024-01-01T00:00:10+00:00''"
  let ?a0 = "running_app dedup_config"
  have det: "\<And>t app. detection ''scanner-1'' (SendRc MQTT_ERR_SUCCESS) t device_AA no_data app =
      ScannerApp_handle_advertisement (SendRc MQTT_ERR_SUCCESS) (adv_AA t) app"
    by (simp add: detection_def BLEScanner_handle_advertisement_def adv_AA_def)
  have cfg: "\<not> blocklist_enabled dedup_config" "deduplication_enabled dedup_config"
    "deduplication_interval_seconds dedup_config = 30"
    by (simp_all add: dedup_config_def)
  have a0: "app_config ?a0 = dedup_config" "mqtt_publisher ?a0 = Some connected_publisher"
    "messages_published ?a0 = 0"
    by (simp_all add: running_app_def ScannerApp_def)
  have c0: "connected connected_publisher" "advertisement_calls connected_publisher = []"
    by (simp_all add: connected_publisher_eq)
  define a1 where "a1 = ScannerApp_handle_advertisement (SendRc MQTT_ERR_SUCCESS) (adv_AA ?t0) ?a0"
  have n0: "\<not> (blocklist_enabled (app_config ?a0) \<and>
      device_address (adv_AA ?t0) \<in> set (blocklist_devices (app_config ?a0)))"
    using cfg a0 by simp
  note s1 = handle_forwards [OF n0 a0(2) c0(1), folded a1_def]
  define p1 where "p1 = connected_publisher\<lparr>advertisement_calls := advertisement_calls connected_publisher @ [adv_AA ?t0],
                client_publishes := client_publishes connected_publisher @
                  [(topic_prefix connected_publisher @ ''/raw/'' @ pub_scanner_id connected_publisher, False,
                    MQTT_ERR_SUCCESS)]\<rparr>"
  have a1: "app_config a1 = dedup_config" "mqtt_publisher a1 = Some p1" "messages_published a1 = 1"
    unfolding s1 p1_def using a0 by simp_all
  have c1: "connected p1" "advertisement_calls p1 = [adv_AA ?t0]"
    unfolding p1_def using c0 by simp_all
  define a2 where "a2 = ScannerApp_handle_advertisement (SendRc MQTT_ERR_SUCCESS) (adv_AA ?t1) a1"
  have n1: "\<not> (blocklist_enabled (app_config a1) \<and>
      device_address (adv_AA ?t1) \<in> set (blocklist_devices (app_config a1)))"
    using cfg a1 by simp
  note s2 = handle_forwards [OF n1 a1(2) c1(1), folded a2_def]
  have a2: "map_option advertisement_calls (mqtt_publisher a2) = Some [adv_AA ?t0, adv_AA ?t1]"
    "messages_published a2 = 2"
    unfolding s2 using a1 c1 by simp_all
  have addr: "\<And>t. device_address (adv_AA t) = ''AA:BB:CC:DD:EE:FF''"
    by (simp add: adv_AA_eq)
  show ?thesis
    unfolding det using a2 addr cfg a0 unfolding a2_def a1_def by simp
qed

text \<open>
  Claim C7. Over any sequence of operations of the application and of its publisher
  (detections with any publish outcome, status publishes, connect and disconnect
  notifications, delivery confirmations, reading statistics, disconnecting), the count of
  published messages and the number of devices seen do not decrease, and the publisher's
  \<open>messages_sent\<close> and \<open>messages_failed\<close> do not decrease either: the publisher stays in
  place and none of its counters is reset.
\<close>

theorem counters_never_decrease:
  "messages_published app \<le> messages_published (run_operations app xs) \<and>
   fcard (devices_seen app) \<le> fcard (devices_seen (run_operations app xs)) \<and>
   (\<forall>p. mqtt_publisher app = Some p \<longrightarrow>
      (\<exists>p'. mqtt_publisher (run_operations app xs) = Some p' \<and>
            messages_sent p \<le> messages_sent p' \<and>
            messages_failed p \<le> messages_failed p'))"
  using run_operations_le [of app xs] unfolding counters_le_def .

theorem counters_never_decrease_witness:
  "mqtt_publisher (running_app dedup_config) = Some connected_publisher \<and>
   (\<exists>p'. mqtt_publisher (run_operations (running_app dedup_config)
             [HandleAdvertisement (SendRc 0) (adv_AA ''t0''), OnPublish, OnDisconnect 1,
              HandleAdvertisement (SendRc 0) (adv_AA ''t1''), OnConnect 0 5, Disconnect]) = Some p' \<and>
          messages_sent connected_publisher \<le> messages_sent p' \<and>
          messages_failed connected_publisher \<le> messages_failed p')"
proof -
  have h: "mqtt_publisher (running_app dedup_config) = Some connected_publisher"
    by (simp add: running_app_def ScannerApp_def)
  from counters_never_decrease [of "running_app dedup_config"
      "[HandleAdvertisement (SendRc 0) (adv_AA ''t0''), OnPublish, OnDisconnect 1,
              HandleAdvertisement (SendRc 0) (adv_AA ''t1''), OnConnect 0 5, Disconnect]"] h
  show ?thesis by blast
qed

text \<open>
  Claim C8 as stated fails when the blocklist holds the address but is not enabled: the
  advertisement is handed to \<open>publish_advertisement\<close>.
\<close>

theorem blocklist_not_enabled_forwards:
  "device_address (adv_AA ''t0'') \<in> set (blocklist_devices (app_config (running_app (listed_config False)))) \<and>
   map_option advertisement_calls
     (mqtt_publisher (ScannerApp_handle_advertisement (SendRc MQTT_ERR_SUCCESS) (adv_AA ''t0'')
        (running_app (listed_config False)))) = Some [adv_AA ''t0'']"
proof -
  let ?a = "running_app (listed_config False)"
  have cfg: "app_config ?a = listed_config False" "mqtt_publisher ?a = Some connected_publisher"
    by (simp_all add: running_app_def ScannerApp_def)
  have off: "\<not> (blocklist_enabled (app_config ?a) \<and>
      device_address (adv_AA ''t0'') \<in> set (blocklist_devices (app_config ?a)))"
    unfolding cfg by (simp add: listed_config_def)
  have c0: "connected connected_publisher" "advertisement_calls connected_publisher = []"
    by (simp_all add: connected_publisher_eq)
  have listed: "device_address (adv_AA ''t0'') \<in> set (blocklist_devices (app_config ?a))"
    unfolding cfg by (simp add: listed_config_def adv_AA_eq)
  show ?thesis
    unfolding handle_forwards [OF off cfg(2) c0(1)] using listed c0(2) by simp
qed

text \<open>
  Claim C8, amended. If the blocklist is enabled and holds the address of an advertisement,
  the handler leaves the publisher exactly as it was, so \<open>publish_advertisement\<close> is not
  called for it, and the count of published messages is unchanged; the deduplication
  settings play no part.
\<close>

theorem enabled_blocklist_drops:
  assumes "blocklist_enabled (app_config app)"
    and "device_address adv \<in> set (blocklist_devices (app_config app))"
  shows "mqtt_publisher (ScannerApp_handle_advertisement res adv app) = mqtt_publisher app \<and>
         messages_published (ScannerApp_handle_advertisement res adv app) = messages_published app"
  using assms by (simp add: ScannerApp_handle_advertisement_def Let_def)

theorem enabled_blocklist_drops_witness:
  "blocklist_enabled (app_config (running_app (listed_config True))) \<and>
   device_address (adv_AA ''t0'') \<in> set (blocklist_devices (app_config (running_app (listed_config True)))) \<and>
   mqtt_publisher (ScannerApp_handle_advertisement (SendRc MQTT_ERR_SUCCESS) (adv_AA ''t0'')
        (running_app (listed_config True))) = Some connected_publisher"
proof -
  let ?a = "running_app (listed_config True)"
  have cfg: "app_config ?a = listed_config True" "mqtt_publisher ?a = Some connected_publisher"
    by (simp_all add: running_app_def ScannerApp_def)
  have on: "blocklist_enabled (app_config ?a)" unfolding cfg by (simp add: listed_config_def)
  have listed: "device_address (adv_AA ''t0'') \<in> set (blocklist_devices (app_config ?a))"
    unfolding cfg by (simp add: listed_config_def adv_AA_eq)
  from enabled_blocklist_drops [OF on listed, of "SendRc MQTT_ERR_SUCCESS"] on listed cfg(2)
  show ?thesis by simp
qed


end
